theory Spec2Isabelle
  imports Main "HOL-Library.Word"
begin

unbundle bit_operations_syntax

section \<open>The page-fault handler of userprog/exception.c\<close>

text \<open>
  The file embeds \<^verbatim>\<open>page_fault\<close> and its three help functions
  (\<^verbatim>\<open>exit_if_user_access_in_kernel\<close>, \<^verbatim>\<open>write_on_nonwritable_page\<close>,
  \<^verbatim>\<open>bring_esp_from_thread_struct\<close>) and \<^verbatim>\<open>kill\<close>. Pointers are 32-bit words: comparison
  is unsigned and \<open>+\<close>, \<open>-\<close> wrap around, as the pointer arithmetic of the compiled
  kernel does.
\<close>

subsection \<open>Constants of the header files\<close>

type_synonym addr = "32 word"

text \<open>
  The handler takes its constants from \<^verbatim>\<open>threads/vaddr.h\<close>, \<^verbatim>\<open>userprog/exception.h\<close>,
  \<^verbatim>\<open>userprog/gdt.h\<close> and \<^verbatim>\<open>threads/palloc.h\<close>. Their values are parameters of the model,
  collected in one record that every definition below takes as its first argument, so
  that what is proved holds for every choice of them.
\<close>

record machine =
  PHYS_BASE :: addr
  PGSIZE :: addr
  PF_P :: "32 word"
  PF_W :: "32 word"
  PF_U :: "32 word"
  SEL_UCSEG :: "16 word"
  SEL_KCSEG :: "16 word"
  PAL_ZERO :: "32 word"
  PAL_USER :: "32 word"

text \<open>The one constant the source file defines itself: \<^verbatim>\<open>#define STACK_LIMIT 8 * 1024 * 1024\<close>.\<close>

definition STACK_LIMIT :: addr where
  "STACK_LIMIT = 8 * 1024 * 1024"

text \<open>
  Modelled from the spec: \<^verbatim>\<open>is_user_vaddr\<close> and \<^verbatim>\<open>is_kernel_vaddr\<close> (\<^verbatim>\<open>threads/vaddr.h\<close>) are
  missing. The kernel's reserved address range starts at \<^verbatim>\<open>PHYS_BASE\<close>, the top of the user
  address space; user space is everything below.
\<close>

definition is_user_vaddr :: "machine \<Rightarrow> addr \<Rightarrow> bool" where
  "is_user_vaddr m vaddr = (vaddr < PHYS_BASE m)"

definition is_kernel_vaddr :: "machine \<Rightarrow> addr \<Rightarrow> bool" where
  "is_kernel_vaddr m vaddr = (PHYS_BASE m \<le> vaddr)"

text \<open>
  Modelled from the spec: \<^verbatim>\<open>pg_round_down\<close> (\<^verbatim>\<open>threads/vaddr.h\<close>) is missing. It yields the
  start of the page containing the address: the address minus its offset in the page.
\<close>

definition pg_round_down :: "machine \<Rightarrow> addr \<Rightarrow> addr" where
  "pg_round_down m va = va - va mod PGSIZE m"

subsection \<open>Data\<close>

text \<open>The fields of \<^verbatim>\<open>struct intr_frame\<close> that the handler reads or writes.\<close>

record intr_frame =
  error_code :: "32 word"
  cs :: "16 word"
  esp :: addr

text \<open>
  The fields of \<^verbatim>\<open>struct page\<close> (the supplemental page-table entry) that the handler reads
  or writes. \<open>file'\<close> is the pointer \<^verbatim>\<open>file\<close>: \<open>None\<close> is \<^verbatim>\<open>NULL\<close>.
\<close>

record page =
  upage :: addr
  writable :: bool
  loaded :: bool
  file' :: "nat option"
  swaped :: bool

text \<open>
  The calls the handler makes to the rest of the kernel, with their arguments. The state
  below keeps them in the order they are made; the kernel itself has no such list.
\<close>

datatype call =
    Ptable_lookup addr
  | Page_load_swap page
  | Page_load_file page
  | Frame_alloc "32 word"
  | Install_page addr addr bool
  | Malloc
  | Frame_get_from_addr addr
  | Ptable_insert page

text \<open>
  The kernel state the handler works on: the fault counter (a \<^verbatim>\<open>long long\<close>), the
  register CR2 holding the fault address, the stack pointer saved in the current thread
  (\<^verbatim>\<open>thread_current()->esp\<close>), the trap frame \<^verbatim>\<open>*f\<close>, the supplemental page table of the
  current process keyed by page address, the hardware page table (user page to frame and
  writable bit), the back link \<^verbatim>\<open>alloc_page\<close> of every frame, and the calls made so far.
\<close>

record kstate =
  page_fault_cnt :: "64 word"
  cr2 :: addr
  thread_esp :: addr
  intr :: intr_frame
  spt :: "addr \<rightharpoonup> page"
  pagedir :: "addr \<rightharpoonup> addr \<times> bool"
  alloc_page :: "addr \<rightharpoonup> page"
  calls :: "call list"

text \<open>
  The answers of the collaborators that are not in the source file. The loaders answer
  per page entry. \<^verbatim>\<open>frame_alloc\<close>, \<^verbatim>\<open>install_page\<close> and \<^verbatim>\<open>malloc\<close> are asked once for every
  page the stack-growth loop handles, so their answers are indexed by that page:
  \<^verbatim>\<open>frame_alloc\<close> yields a frame or \<^verbatim>\<open>NULL\<close>, \<^verbatim>\<open>malloc\<close> yields a block with arbitrary contents
  or \<^verbatim>\<open>NULL\<close>. The effects the loaders have of their own are outside this file.
\<close>

record env =
  page_load_swap :: "page \<Rightarrow> bool"
  page_load_file :: "page \<Rightarrow> bool"
  frame_alloc :: "addr \<Rightarrow> addr option"
  install_page :: "addr \<Rightarrow> addr \<Rightarrow> bool"
  malloc :: "addr \<Rightarrow> page option"
  ptable_insert :: "page \<Rightarrow> bool"

text \<open>
  Modelled from the spec: \<^verbatim>\<open>ptable_lookup\<close> (\<^verbatim>\<open>vm/page.c\<close>) is missing. It looks up the page
  containing the address in the supplemental page table; \<open>None\<close> is \<^verbatim>\<open>NULL\<close>.
\<close>

definition ptable_lookup :: "machine \<Rightarrow> (addr \<rightharpoonup> page) \<Rightarrow> addr \<Rightarrow> page option" where
  "ptable_lookup m t va = t (pg_round_down m va)"

subsection \<open>Outcomes\<close>

text \<open>
  \<^verbatim>\<open>kill\<close> ends in \<^verbatim>\<open>thread_exit ()\<close> or in \<^verbatim>\<open>PANIC\<close>. The handler either returns to the faulting
  instruction, or ends in \<^verbatim>\<open>system_exit (status)\<close>, or in \<^verbatim>\<open>kill\<close>, or dereferences a null
  pointer.
\<close>

datatype kill_result = Thread_Exit | Kernel_Panic

datatype outcome = Resolved | System_Exit int | Kill kill_result | Null_Deref

text \<open>The state of the loop and of the block around it: the flag \<^verbatim>\<open>success\<close>, or a stop.\<close>

datatype resolution = Returned bool kstate | Stopped outcome kstate

subsection \<open>The functions\<close>

definition kill :: "machine \<Rightarrow> intr_frame \<Rightarrow> kill_result" where
  "kill m f =
     (if cs f = SEL_UCSEG m then Thread_Exit
      else if cs f = SEL_KCSEG m then Kernel_Panic
      else Thread_Exit)"

definition exit_if_user_access_in_kernel :: "machine \<Rightarrow> addr \<Rightarrow> bool \<Rightarrow> outcome option" where
  "exit_if_user_access_in_kernel m fault_addr user =
     (if is_kernel_vaddr m fault_addr \<and> user then Some (System_Exit (- 1)) else None)"

definition bring_esp_from_thread_struct ::
  "machine \<Rightarrow> bool \<Rightarrow> bool \<Rightarrow> addr \<Rightarrow> intr_frame \<Rightarrow> intr_frame" where
  "bring_esp_from_thread_struct m user not_present cur_esp f =
     (if \<not> user \<and> not_present \<and> esp f \<le> PHYS_BASE m - STACK_LIMIT
      then f\<lparr>esp := cur_esp\<rparr> else f)"

definition write_on_nonwritable_page ::
  "machine \<Rightarrow> addr \<Rightarrow> bool \<Rightarrow> bool \<Rightarrow> kstate \<Rightarrow> outcome option \<times> kstate" where
  "write_on_nonwritable_page m fault_addr not_present write s =
     (if is_user_vaddr m fault_addr \<and> \<not> not_present \<and> write then
        (let s1 = s\<lparr>calls := calls s @ [Ptable_lookup fault_addr]\<rparr> in
         case ptable_lookup m (spt s) fault_addr of
           None \<Rightarrow> (Some Null_Deref, s1)
         | Some pg \<Rightarrow>
             if \<not> writable pg then (Some (System_Exit (- 1)), s1) else (None, s1))
      else (None, s))"

text \<open>
  The body of the \<^verbatim>\<open>while\<close> loop of the stack-growth branch, for the page at
  \<^verbatim>\<open>stack_page_addr\<close>: it yields the flag \<^verbatim>\<open>success\<close> and the state after the page, or stops
  where \<^verbatim>\<open>malloc\<close> has returned \<^verbatim>\<open>NULL\<close> and the block is written to. The increment of
  \<^verbatim>\<open>stack_page_addr\<close>, which both ways through the body end with, is in the loop below.
\<close>

definition stack_walk_body :: "machine \<Rightarrow> env \<Rightarrow> addr \<Rightarrow> bool \<Rightarrow> kstate \<Rightarrow> resolution" where
  "stack_walk_body m e stack_page_addr success s =
     (let s1 = s\<lparr>calls := calls s @ [Ptable_lookup stack_page_addr]\<rparr> in
      case ptable_lookup m (spt s) stack_page_addr of
        Some pg \<Rightarrow> Returned success s1
      | None \<Rightarrow>
         (let s2 = s1\<lparr>calls := calls s1 @ [Frame_alloc (PAL_USER m OR PAL_ZERO m)]\<rparr> in
          case frame_alloc e stack_page_addr of
            None \<Rightarrow> Returned success s2
          | Some tmp_kpage \<Rightarrow>
             (let s3 = s2\<lparr>calls := calls s2 @ [Install_page stack_page_addr tmp_kpage True]\<rparr> in
              if install_page e stack_page_addr tmp_kpage then
                (let s4 = s3\<lparr>pagedir := (pagedir s3)(stack_page_addr \<mapsto> (tmp_kpage, True)),
                             calls := calls s3 @ [Malloc]\<rparr> in
                 case malloc e stack_page_addr of
                   None \<Rightarrow> Stopped Null_Deref s4
                 | Some blk \<Rightarrow>
                    (let s_page = blk\<lparr>upage := stack_page_addr, writable := True,
                                      loaded := True, file' := None\<rparr>;
                         s5 = s4\<lparr>alloc_page := (alloc_page s4)(tmp_kpage \<mapsto> s_page),
                                 calls := calls s4 @ [Frame_get_from_addr tmp_kpage,
                                                      Ptable_insert s_page]\<rparr> in
                     if \<not> ptable_insert e s_page then Returned False s5
                     else Returned True (s5\<lparr>spt := (spt s5)(stack_page_addr \<mapsto> s_page)\<rparr>)))
              else Returned False s3)))"

text \<open>The loop itself. \<open>None\<close> is a loop that never ends.\<close>

partial_function (option) stack_walk ::
  "machine \<Rightarrow> env \<Rightarrow> addr \<Rightarrow> bool \<Rightarrow> kstate \<Rightarrow> resolution option" where
  "stack_walk m e stack_page_addr success s =
     (if stack_page_addr < PHYS_BASE m - PGSIZE m then
        (case stack_walk_body m e stack_page_addr success s of
           Stopped out s' \<Rightarrow> Some (Stopped out s')
         | Returned success' s' \<Rightarrow> stack_walk m e (stack_page_addr + PGSIZE m) success' s')
      else Some (Returned success s))"

declare stack_walk.simps [code]

text \<open>
  The block of \<^verbatim>\<open>page_fault\<close> that brings the page in (from \<^verbatim>\<open>if(is_user_vaddr(fault_addr)
  && not_present)\<close> to its closing brace): it yields the flag \<^verbatim>\<open>success\<close>, or stops in
  \<^verbatim>\<open>system_exit (-1)\<close>.
\<close>

definition resolve_fault :: "machine \<Rightarrow> env \<Rightarrow> addr \<Rightarrow> bool \<Rightarrow> kstate \<Rightarrow> resolution option" where
  "resolve_fault m e fault_addr not_present s =
     (if is_user_vaddr m fault_addr \<and> not_present then
        (let s1 = s\<lparr>calls := calls s @ [Ptable_lookup fault_addr]\<rparr> in
         case ptable_lookup m (spt s) fault_addr of
           Some pg \<Rightarrow>
             if \<not> loaded pg then
               (if swaped pg
                then Some (Returned (page_load_swap e pg)
                             (s1\<lparr>calls := calls s1 @ [Page_load_swap pg]\<rparr>))
                else Some (Returned (page_load_file e pg)
                             (s1\<lparr>calls := calls s1 @ [Page_load_file pg]\<rparr>)))
             else Some (Returned False s1)
         | None \<Rightarrow>
             if esp (intr s) - 32 \<le> fault_addr \<and> PHYS_BASE m - STACK_LIMIT \<le> fault_addr
             then stack_walk m e (pg_round_down m fault_addr) False s1
             else Some (Stopped (System_Exit (- 1)) s1))
      else Some (Returned False s))"

text \<open>
  The end of \<^verbatim>\<open>page_fault\<close>: \<^verbatim>\<open>if(!success)\<close> the fault is printed and \<^verbatim>\<open>kill (f)\<close> called,
  otherwise the handler returns.
\<close>

definition report_failure :: "machine \<Rightarrow> resolution option \<Rightarrow> (outcome \<times> kstate) option" where
  "report_failure m r =
     (case r of
        None \<Rightarrow> None
      | Some (Stopped out s) \<Rightarrow> Some (out, s)
      | Some (Returned success s) \<Rightarrow>
          if \<not> success then Some (Kill (kill m (intr s)), s) else Some (Resolved, s))"

text \<open>
  The handler. \<^verbatim>\<open>intr_enable\<close> and the \<^verbatim>\<open>printf\<close> calls are left out; the fault address is
  read from CR2 at entry, before the counter is incremented.
\<close>

definition page_fault :: "machine \<Rightarrow> env \<Rightarrow> kstate \<Rightarrow> (outcome \<times> kstate) option" where
  "page_fault m e s0 =
     (let fault_addr = cr2 s0;
          s = s0\<lparr>page_fault_cnt := page_fault_cnt s0 + 1\<rparr>;
          not_present = (error_code (intr s) AND PF_P m = 0);
          write = (error_code (intr s) AND PF_W m \<noteq> 0);
          user = (error_code (intr s) AND PF_U m \<noteq> 0)
      in case exit_if_user_access_in_kernel m fault_addr user of
           Some out \<Rightarrow> Some (out, s)
         | None \<Rightarrow>
           (case write_on_nonwritable_page m fault_addr not_present write s of
              (Some out, s1) \<Rightarrow> Some (out, s1)
            | (None, s1) \<Rightarrow>
               (let s2 = s1\<lparr>intr := bring_esp_from_thread_struct m user not_present
                                      (thread_esp s1) (intr s1)\<rparr>
                in report_failure m (resolve_fault m e fault_addr not_present s2))))"

subsection \<open>Notions for the properties\<close>

text \<open>The three bits of the error code, as the handler decodes them.\<close>

abbreviation not_present :: "machine \<Rightarrow> kstate \<Rightarrow> bool" where
  "not_present m s \<equiv> error_code (intr s) AND PF_P m = 0"

abbreviation write_access :: "machine \<Rightarrow> kstate \<Rightarrow> bool" where
  "write_access m s \<equiv> error_code (intr s) AND PF_W m \<noteq> 0"

abbreviation user_context :: "machine \<Rightarrow> kstate \<Rightarrow> bool" where
  "user_context m s \<equiv> error_code (intr s) AND PF_U m \<noteq> 0"

text \<open>
  The trap frame as the resolution block sees it, after \<^verbatim>\<open>bring_esp_from_thread_struct\<close>.
\<close>

abbreviation recovered_frame :: "machine \<Rightarrow> kstate \<Rightarrow> intr_frame" where
  "recovered_frame m s \<equiv>
     bring_esp_from_thread_struct m (user_context m s) (not_present m s) (thread_esp s) (intr s)"

text \<open>The state a resolution ends in, and a change of that state.\<close>

fun final_state :: "resolution \<Rightarrow> kstate" where
  "final_state (Returned success s) = s"
| "final_state (Stopped out s) = s"

fun map_state :: "(kstate \<Rightarrow> kstate) \<Rightarrow> resolution \<Rightarrow> resolution" where
  "map_state g (Returned success s) = Returned success (g s)"
| "map_state g (Stopped out s) = Stopped out (g s)"

text \<open>
  The pages the loop visits when it starts at page \<open>a\<close>: \<open>a\<close>, \<open>a + PGSIZE\<close>,
  \<open>a + 2 * PGSIZE\<close> and so on, as long as they lie below \<^verbatim>\<open>PHYS_BASE - PGSIZE\<close>.
\<close>

definition on_walk :: "machine \<Rightarrow> addr \<Rightarrow> addr \<Rightarrow> bool" where
  "on_walk m a p = (a \<le> p \<and> p < PHYS_BASE m - PGSIZE m \<and> (p - a) mod PGSIZE m = 0)"

text \<open>
  What one pass of the loop body leaves behind for a page \<open>p\<close> that has no entry yet: the
  entry it inserts and the mapping it installs, if the collaborators let it get that far.
\<close>

definition new_entry :: "env \<Rightarrow> addr \<Rightarrow> page option" where
  "new_entry e p =
     (case frame_alloc e p of
        None \<Rightarrow> None
      | Some k \<Rightarrow>
          if install_page e p k then
            (case malloc e p of
               None \<Rightarrow> None
             | Some blk \<Rightarrow>
                 (let pg = blk\<lparr>upage := p, writable := True, loaded := True, file' := None\<rparr>
                  in if ptable_insert e pg then Some pg else None))
          else None)"

definition new_mapping :: "env \<Rightarrow> addr \<Rightarrow> (addr \<times> bool) option" where
  "new_mapping e p =
     (case frame_alloc e p of
        None \<Rightarrow> None
      | Some k \<Rightarrow> if install_page e p k then Some (k, True) else None)"



text \<open>
  The state in which the resolution block continues once it has looked the fault address
  up: the counter incremented, the stack pointer of the trap frame recovered, the lookup
  recorded.
\<close>

definition after_lookup :: "machine \<Rightarrow> kstate \<Rightarrow> kstate" where
  "after_lookup m s =
     s\<lparr>page_fault_cnt := page_fault_cnt s + 1, intr := recovered_frame m s,
       calls := calls s @ [Ptable_lookup (cr2 s)]\<rparr>"

subsection \<open>Concrete inputs\<close>

text \<open>
  The configuration of the stock headers, the concrete machine of the examples below:
  user space ends at \<^verbatim>\<open>0xc0000000\<close>, a page has 4096 bytes, the error code and the
  segment selectors are those of the x86, and the allocator flags those of \<^verbatim>\<open>palloc.h\<close>.
\<close>

definition pintos :: machine where
  "pintos = \<lparr>PHYS_BASE = 0xC0000000, PGSIZE = 0x1000, PF_P = 1, PF_W = 2, PF_U = 4,
             SEL_UCSEG = 0x1B, SEL_KCSEG = 0x08, PAL_ZERO = 2, PAL_USER = 4\<rparr>"

text \<open>
  A state at entry of the handler: fault address, error code, user stack pointer of the
  trap frame (in user code, selector \<^verbatim>\<open>SEL_UCSEG\<close>) and supplemental page table; nothing
  mapped or called yet.
\<close>

definition fault_state :: "addr \<Rightarrow> 32 word \<Rightarrow> addr \<Rightarrow> (addr \<rightharpoonup> page) \<Rightarrow> kstate" where
  "fault_state fa code sp t =
     \<lparr>page_fault_cnt = 0, cr2 = fa, thread_esp = sp,
      intr = \<lparr>error_code = code, cs = 0x1B, esp = sp\<rparr>,
      spt = t, pagedir = Map.empty, alloc_page = Map.empty, calls = []\<rparr>"

text \<open>Collaborators that always succeed; the frame of a page lies 16 MiB above it.\<close>

definition env_ok :: env where
  "env_ok =
     \<lparr>page_load_swap = (\<lambda>pg. True), page_load_file = (\<lambda>pg. True),
      frame_alloc = (\<lambda>a. Some (a + 0x1000000)), install_page = (\<lambda>a k. True),
      malloc = (\<lambda>a. Some \<lparr>upage = 0, writable = False, loaded = False,
                           file' = None, swaped = False\<rparr>),
      ptable_insert = (\<lambda>pg. True)\<rparr>"

text \<open>
  Collaborators where \<^verbatim>\<open>frame_alloc\<close> fails for the page at \<^verbatim>\<open>0xbfffc000\<close> and
  \<^verbatim>\<open>ptable_insert\<close> for the page at \<^verbatim>\<open>0xbfffd000\<close>, and all else succeeds.
\<close>

definition env_flaky :: env where
  "env_flaky =
     env_ok\<lparr>frame_alloc := (\<lambda>a. if a = 0xBFFFC000 then None else Some (a + 0x1000000)),
            ptable_insert := (\<lambda>pg. upage pg \<noteq> 0xBFFFD000)\<rparr>"

text \<open>Collaborators where the file loader fails and all else succeeds.\<close>

definition env_no_file :: env where
  "env_no_file = env_ok\<lparr>page_load_file := (\<lambda>pg. False)\<rparr>"

text \<open>A resident stack page, as the loop creates it, and an entry that is not yet loaded.\<close>

definition stack_entry :: "addr \<Rightarrow> page" where
  "stack_entry a = \<lparr>upage = a, writable = True, loaded = True, file' = None, swaped = False\<rparr>"

definition lazy_entry :: "addr \<Rightarrow> bool \<Rightarrow> nat option \<Rightarrow> bool \<Rightarrow> page" where
  "lazy_entry a w fl sw = \<lparr>upage = a, writable = w, loaded = False, file' = fl, swaped = sw\<rparr>"

text \<open>The entries of a stack that has grown to the page at \<^verbatim>\<open>0xbfffd000\<close>.\<close>

definition grown_stack :: "addr \<rightharpoonup> page" where
  "grown_stack = [0xBFFFD000 \<mapsto> stack_entry 0xBFFFD000, 0xBFFFE000 \<mapsto> stack_entry 0xBFFFE000,
                  0xBFFFF000 \<mapsto> stack_entry 0xBFFFF000]"

section \<open>Properties\<close>

subsection \<open>Unfolding the definitions\<close>

lemmas handler_defs =
  page_fault_def resolve_fault_def report_failure_def exit_if_user_access_in_kernel_def
  write_on_nonwritable_page_def bring_esp_from_thread_struct_def kill_def
  is_user_vaddr_def is_kernel_vaddr_def ptable_lookup_def

lemmas example_defs =
  pintos_def fault_state_def env_ok_def env_flaky_def env_no_file_def stack_entry_def
  lazy_entry_def pg_round_down_def STACK_LIMIT_def stack_walk_body_def after_lookup_def

subsection \<open>Pages and their addresses\<close>

lemma unat_next_page:
  assumes "a < PHYS_BASE m - PGSIZE m" and "PGSIZE m \<le> PHYS_BASE m"
  shows "unat (a + PGSIZE m) = unat a + unat (PGSIZE m)"
proof -
  have "unat (PHYS_BASE m - PGSIZE m) = unat (PHYS_BASE m) - unat (PGSIZE m)"
    using assms(2) by (simp add: unat_sub)
  moreover have "unat a < unat (PHYS_BASE m - PGSIZE m)"
    using assms(1) by (simp add: word_less_nat_alt)
  moreover have "unat (PHYS_BASE m) < 2 ^ 32"
    using unsigned_less [of "PHYS_BASE m"] by simp
  ultimately have "unat a + unat (PGSIZE m) < 2 ^ 32" by linarith
  then show ?thesis by (simp add: unat_add_lem [THEN iffD1])
qed

lemma pg_round_down_aligned: "pg_round_down m va mod PGSIZE m = 0"
proof -
  have le: "va mod PGSIZE m \<le> va" by (simp add: word_le_nat_alt unat_mod)
  have "unat (va - va mod PGSIZE m) = unat va - unat va mod unat (PGSIZE m)"
    using le by (simp add: unat_sub unat_mod)
  then have "unat ((va - va mod PGSIZE m) mod PGSIZE m) = 0"
    by (simp add: unat_mod minus_mod_eq_mult_div)
  then show ?thesis by (simp add: pg_round_down_def unat_eq_zero)
qed

lemma pg_round_down_id: "a mod PGSIZE m = 0 \<Longrightarrow> pg_round_down m a = a"
  by (simp add: pg_round_down_def)

lemma next_page_aligned:
  assumes "a < PHYS_BASE m - PGSIZE m" and "PGSIZE m \<le> PHYS_BASE m" and "a mod PGSIZE m = 0"
  shows "(a + PGSIZE m) mod PGSIZE m = 0"
proof -
  have "unat a mod unat (PGSIZE m) = 0"
    using assms(3) by (metis unat_mod unat_0)
  then have "unat ((a + PGSIZE m) mod PGSIZE m) = 0"
    by (simp add: unat_mod unat_next_page [OF assms(1,2)])
  then show ?thesis by (simp add: unat_eq_zero)
qed

subsection \<open>The loop\<close>

text \<open>The loop ends on every machine whose pages are not empty and fit below \<^verbatim>\<open>PHYS_BASE\<close>.\<close>

lemma stack_walk_terminates:
  assumes "PGSIZE m \<noteq> 0" and "PGSIZE m \<le> PHYS_BASE m"
  shows "\<exists>r. stack_walk m e a b s = Some r"
proof (induction "unat (PHYS_BASE m - PGSIZE m) - unat a" arbitrary: a b s rule: less_induct)
  case less
  show ?case
  proof (cases "a < PHYS_BASE m - PGSIZE m")
    case False
    then show ?thesis by (subst stack_walk.simps) simp
  next
    case True
    have pos: "0 < unat (PGSIZE m)" using assms(1) by (simp add: unat_gt_0)
    have lt: "unat a < unat (PHYS_BASE m - PGSIZE m)"
      using True by (simp add: word_less_nat_alt)
    have dec: "unat (PHYS_BASE m - PGSIZE m) - unat (a + PGSIZE m)
                 < unat (PHYS_BASE m - PGSIZE m) - unat a"
      using unat_next_page [OF True assms(2)] pos lt by linarith
    show ?thesis
    proof (cases "stack_walk_body m e a b s")
      case (Returned b' s')
      with less [OF dec, of b' s'] True show ?thesis
        by (subst stack_walk.simps) simp
    next
      case (Stopped out s')
      with True show ?thesis by (subst stack_walk.simps) simp
    qed
  qed
qed

text \<open>
  Induction along the passes of a loop that has ended: the loop was left at once, or the
  body stopped, or the body went on to the next page.
\<close>

lemma stack_walk_induct [consumes 1, case_names finished stopped next_page]:
  assumes run: "stack_walk m e a b s = Some r"
    and base: "\<And>a b s. \<not> a < PHYS_BASE m - PGSIZE m \<Longrightarrow> Q a b s (Returned b s)"
    and stop: "\<And>a b s out s'. a < PHYS_BASE m - PGSIZE m \<Longrightarrow>
        stack_walk_body m e a b s = Stopped out s' \<Longrightarrow> Q a b s (Stopped out s')"
    and step: "\<And>a b s b' s' r. a < PHYS_BASE m - PGSIZE m \<Longrightarrow>
        stack_walk_body m e a b s = Returned b' s' \<Longrightarrow>
        stack_walk m e (a + PGSIZE m) b' s' = Some r \<Longrightarrow>
        Q (a + PGSIZE m) b' s' r \<Longrightarrow> Q a b s r"
  shows "Q a b s r"
proof -
  have "stack_walk m e a b s = Some r \<and> (m = m \<longrightarrow> e = e \<longrightarrow> Q a b s r)"
  proof (rule stack_walk.raw_induct
      [where P = "\<lambda>m' e' a b s r. stack_walk m' e' a b s = Some r
                    \<and> (m' = m \<longrightarrow> e' = e \<longrightarrow> Q a b s r)", OF _ run])
    fix walk m' e' a b s r
    assume IH: "\<And>m' e' a b s r. walk m' e' a b s = Some r \<Longrightarrow>
        stack_walk m' e' a b s = Some r \<and> (m' = m \<longrightarrow> e' = e \<longrightarrow> Q a b s r)"
      and unfolded: "(if a < PHYS_BASE m' - PGSIZE m'
           then case stack_walk_body m' e' a b s of
                  Returned success' s' \<Rightarrow> walk m' e' (a + PGSIZE m') success' s'
                | Stopped out s' \<Rightarrow> Some (Stopped out s')
           else Some (Returned b s)) = Some r"
    show "stack_walk m' e' a b s = Some r \<and> (m' = m \<longrightarrow> e' = e \<longrightarrow> Q a b s r)"
    proof (cases "a < PHYS_BASE m' - PGSIZE m'")
      case False
      with unfolded base show ?thesis by (subst stack_walk.simps) auto
    next
      case True
      show ?thesis
      proof (cases "stack_walk_body m' e' a b s")
        case (Returned b' s')
        with True unfolded have "walk m' e' (a + PGSIZE m') b' s' = Some r" by simp
        from IH [OF this] True Returned step show ?thesis
          by (subst stack_walk.simps) auto
      next
        case (Stopped out s')
        with True unfolded stop show ?thesis by (subst stack_walk.simps) auto
      qed
    qed
  qed
  then show ?thesis by simp
qed

lemma stack_walk_body_keeps:
  "intr (final_state (stack_walk_body m e a b s)) = intr s
   \<and> page_fault_cnt (final_state (stack_walk_body m e a b s)) = page_fault_cnt s
   \<and> cr2 (final_state (stack_walk_body m e a b s)) = cr2 s
   \<and> thread_esp (final_state (stack_walk_body m e a b s)) = thread_esp s"
  by (simp add: stack_walk_body_def Let_def split: option.split)

lemma stack_walk_body_stop:
  "stack_walk_body m e a b s = Stopped out s' \<Longrightarrow> out = Null_Deref"
  by (simp add: stack_walk_body_def Let_def split: option.splits if_splits)

lemma stack_walk_keeps:
  assumes "stack_walk m e a b s = Some r"
  shows "intr (final_state r) = intr s \<and> page_fault_cnt (final_state r) = page_fault_cnt s
         \<and> cr2 (final_state r) = cr2 s \<and> thread_esp (final_state r) = thread_esp s"
  using assms
proof (induction rule: stack_walk_induct)
  case (finished a b s)
  then show ?case by simp
next
  case (stopped a b s out s')
  with stack_walk_body_keeps [of m e a b s] show ?case by simp
next
  case (next_page a b s b' s' r)
  with stack_walk_body_keeps [of m e a b s] show ?case by simp
qed

lemma stack_walk_stop:
  assumes "stack_walk m e a b s = Some r"
  shows "\<forall>out s'. r = Stopped out s' \<longrightarrow> out = Null_Deref"
  using assms
proof (induction rule: stack_walk_induct)
  case (finished a b s)
  then show ?case by simp
next
  case (stopped a b s out s')
  then show ?case by (simp add: stack_walk_body_stop)
next
  case (next_page a b s b' s' r)
  then show ?case by simp
qed

text \<open>The loop neither reads nor writes the fault counter.\<close>

lemma stack_walk_body_cnt:
  "stack_walk_body m e a b (s\<lparr>page_fault_cnt := c\<rparr>)
     = map_state (\<lambda>t. t\<lparr>page_fault_cnt := c\<rparr>) (stack_walk_body m e a b s)"
  by (simp add: stack_walk_body_def Let_def split: option.split)

lemma stack_walk_cnt_Some:
  assumes "stack_walk m e a b s = Some r"
  shows "stack_walk m e a b (s\<lparr>page_fault_cnt := c\<rparr>)
           = Some (map_state (\<lambda>t. t\<lparr>page_fault_cnt := c\<rparr>) r)"
  using assms
proof (induction rule: stack_walk_induct)
  case (finished a b s)
  then show ?case by (subst stack_walk.simps) simp
next
  case (stopped a b s out s')
  then show ?case by (subst stack_walk.simps) (simp add: stack_walk_body_cnt)
next
  case (next_page a b s b' s' r)
  then show ?case by (subst stack_walk.simps) (simp add: stack_walk_body_cnt)
qed

lemma stack_walk_cnt:
  "stack_walk m e a b (s\<lparr>page_fault_cnt := c\<rparr>)
     = map_option (map_state (\<lambda>t. t\<lparr>page_fault_cnt := c\<rparr>)) (stack_walk m e a b s)"
proof (cases "stack_walk m e a b s")
  case (Some r)
  then show ?thesis by (simp add: stack_walk_cnt_Some)
next
  case None
  have "stack_walk m e a b (s\<lparr>page_fault_cnt := c\<rparr>) = None"
  proof (rule ccontr)
    assume "stack_walk m e a b (s\<lparr>page_fault_cnt := c\<rparr>) \<noteq> None"
    then obtain r where "stack_walk m e a b (s\<lparr>page_fault_cnt := c\<rparr>) = Some r" by auto
    from stack_walk_cnt_Some [OF this, of "page_fault_cnt s"] None show False by simp
  qed
  with None show ?thesis by simp
qed

subsection \<open>The pages the loop visits\<close>

lemma on_walk_nat:
  "on_walk m a p \<longleftrightarrow>
     unat a \<le> unat p \<and> unat p < unat (PHYS_BASE m - PGSIZE m)
     \<and> (unat p - unat a) mod unat (PGSIZE m) = 0"
proof (cases "a \<le> p")
  case True
  then have "unat (p - a) = unat p - unat a" by (simp add: unat_sub)
  then have "(p - a) mod PGSIZE m = 0 \<longleftrightarrow> (unat p - unat a) mod unat (PGSIZE m) = 0"
    by (metis unat_mod unat_eq_zero)
  with True show ?thesis
    by (simp add: on_walk_def word_le_nat_alt word_less_nat_alt)
next
  case False
  then show ?thesis by (simp add: on_walk_def word_le_nat_alt)
qed

lemma on_walk_finished: "\<not> a < PHYS_BASE m - PGSIZE m \<Longrightarrow> \<not> on_walk m a p"
  by (auto simp: on_walk_def)

lemma on_walk_next:
  assumes lt: "a < PHYS_BASE m - PGSIZE m" and le: "PGSIZE m \<le> PHYS_BASE m"
    and nz: "PGSIZE m \<noteq> 0"
  shows "on_walk m a p \<longleftrightarrow> p = a \<or> on_walk m (a + PGSIZE m) p"
proof -
  have pos: "0 < unat (PGSIZE m)" using nz by (simp add: unat_gt_0)
  have nxt: "unat (a + PGSIZE m) = unat a + unat (PGSIZE m)"
    by (rule unat_next_page [OF lt le])
  have lt': "unat a < unat (PHYS_BASE m - PGSIZE m)"
    using lt by (simp add: word_less_nat_alt)
  show ?thesis
  proof (cases "p = a")
    case True
    with lt' show ?thesis by (simp add: on_walk_nat)
  next
    case False
    then have ne: "unat p \<noteq> unat a" by (simp add: word_unat_eq_iff)
    show ?thesis
    proof
      assume "on_walk m a p"
      then have a: "unat a \<le> unat p" and b: "unat p < unat (PHYS_BASE m - PGSIZE m)"
        and c: "(unat p - unat a) mod unat (PGSIZE m) = 0"
        by (simp_all add: on_walk_nat)
      from c have "unat (PGSIZE m) dvd unat p - unat a" by (simp add: dvd_eq_mod_eq_0)
      moreover from a ne have "0 < unat p - unat a" by simp
      ultimately have d: "unat (PGSIZE m) \<le> unat p - unat a" by (simp add: dvd_imp_le)
      have "(unat p - (unat a + unat (PGSIZE m))) mod unat (PGSIZE m) = 0"
        using c d by (metis diff_diff_left le_mod_geq mod_0_imp_dvd dvd_eq_mod_eq_0 dvd_diff_nat dvd_refl)
      with a b d nxt have "on_walk m (a + PGSIZE m) p" by (simp add: on_walk_nat)
      then show "p = a \<or> on_walk m (a + PGSIZE m) p" by simp
    next
      assume "p = a \<or> on_walk m (a + PGSIZE m) p"
      with False have w: "on_walk m (a + PGSIZE m) p" by simp
      then have a: "unat a + unat (PGSIZE m) \<le> unat p"
        and b: "unat p < unat (PHYS_BASE m - PGSIZE m)"
        and c: "(unat p - (unat a + unat (PGSIZE m))) mod unat (PGSIZE m) = 0"
        by (simp_all add: on_walk_nat nxt)
      have "unat p - unat a = (unat p - (unat a + unat (PGSIZE m))) + unat (PGSIZE m)"
        using a by simp
      then have "(unat p - unat a) mod unat (PGSIZE m) = 0"
        using c by (metis mod_add_self2)
      with a b show "on_walk m a p" by (simp add: on_walk_nat)
    qed
  qed
qed

lemma on_walk_not_before:
  assumes "a < PHYS_BASE m - PGSIZE m" and "PGSIZE m \<le> PHYS_BASE m" and "PGSIZE m \<noteq> 0"
  shows "\<not> on_walk m (a + PGSIZE m) a"
proof -
  have "0 < unat (PGSIZE m)" using assms(3) by (simp add: unat_gt_0)
  with unat_next_page [OF assms(1,2)] show ?thesis by (simp add: on_walk_nat)
qed

subsection \<open>What the loop leaves behind\<close>

lemma stack_walk_body_present:
  "ptable_lookup m (spt s) a = Some pg \<Longrightarrow>
     stack_walk_body m e a b s = Returned b (s\<lparr>calls := calls s @ [Ptable_lookup a]\<rparr>)"
  by (simp add: stack_walk_body_def)

lemma stack_walk_body_effect:
  assumes "a mod PGSIZE m = 0" and "stack_walk_body m e a b s = Returned b' s'"
  shows "spt s' = (if spt s a = None then (spt s)(a := new_entry e a) else spt s)"
    and "pagedir s' = (if spt s a = None \<and> new_mapping e a \<noteq> None
                       then (pagedir s)(a := new_mapping e a) else pagedir s)"
  using assms
  by (auto simp: stack_walk_body_def ptable_lookup_def pg_round_down_id new_entry_def
        new_mapping_def Let_def split: option.splits if_splits)

lemma stack_walk_effect:
  assumes run: "stack_walk m e a b s = Some r"
    and nz: "PGSIZE m \<noteq> 0" and le: "PGSIZE m \<le> PHYS_BASE m"
  shows "a mod PGSIZE m = 0 \<longrightarrow> (\<forall>b' s'. r = Returned b' s' \<longrightarrow>
           spt s' = (\<lambda>p. if on_walk m a p \<and> spt s p = None then new_entry e p else spt s p)
         \<and> pagedir s' = (\<lambda>p. if on_walk m a p \<and> spt s p = None \<and> new_mapping e p \<noteq> None
                               then new_mapping e p else pagedir s p))"
  using run
proof (induction rule: stack_walk_induct)
  case (finished a b s)
  then show ?case by (simp add: on_walk_finished)
next
  case (stopped a b s out s')
  then show ?case by simp
next
  case (next_page a b s b1 s1 r)
  show ?case
  proof (intro impI allI)
    fix b' s'
    assume al: "a mod PGSIZE m = 0" and r: "r = Returned b' s'"
    have al': "(a + PGSIZE m) mod PGSIZE m = 0"
      by (rule next_page_aligned [OF next_page(1) le al])
    note body = stack_walk_body_effect [OF al next_page(2)]
    from next_page(4) al' r
    have IH1: "spt s' = (\<lambda>p. if on_walk m (a + PGSIZE m) p \<and> spt s1 p = None
                              then new_entry e p else spt s1 p)"
      and IH2: "pagedir s' = (\<lambda>p. if on_walk m (a + PGSIZE m) p \<and> spt s1 p = None
                                     \<and> new_mapping e p \<noteq> None
                                  then new_mapping e p else pagedir s1 p)"
      by simp_all
    note nb = on_walk_not_before [OF next_page(1) le nz]
    note nx = on_walk_next [OF next_page(1) le nz]
    have "spt s' p = (if on_walk m a p \<and> spt s p = None then new_entry e p else spt s p)" for p
      unfolding IH1 body using nb nx [of p] by auto
    moreover
    have "pagedir s' p = (if on_walk m a p \<and> spt s p = None \<and> new_mapping e p \<noteq> None
                                  then new_mapping e p else pagedir s p)" for p
      unfolding IH2 body using nb nx [of p] by auto
    ultimately
    show "spt s' = (\<lambda>p. if on_walk m a p \<and> spt s p = None then new_entry e p else spt s p)
         \<and> pagedir s' = (\<lambda>p. if on_walk m a p \<and> spt s p = None \<and> new_mapping e p \<noteq> None
                               then new_mapping e p else pagedir s p)"
      by (simp add: fun_eq_iff)
  qed
qed

text \<open>Where every page it visits has an entry, the loop changes neither flag nor tables.\<close>

lemma on_walk_start: "a < PHYS_BASE m - PGSIZE m \<Longrightarrow> on_walk m a a"
  by (simp add: on_walk_def)

lemma stack_walk_all_present:
  assumes run: "stack_walk m e a b s = Some r"
    and nz: "PGSIZE m \<noteq> 0" and le: "PGSIZE m \<le> PHYS_BASE m"
  shows "a mod PGSIZE m = 0 \<longrightarrow> (\<forall>p. on_walk m a p \<longrightarrow> spt s p \<noteq> None) \<longrightarrow>
           (\<exists>s'. r = Returned b s' \<and> spt s' = spt s \<and> pagedir s' = pagedir s)"
  using run
proof (induction rule: stack_walk_induct)
  case (finished a b s)
  then show ?case by simp
next
  case (stopped a b s out s')
  show ?case
  proof (intro impI)
    assume al: "a mod PGSIZE m = 0" and all: "\<forall>p. on_walk m a p \<longrightarrow> spt s p \<noteq> None"
    from all on_walk_start [OF stopped(1)] obtain pg where "spt s a = Some pg" by auto
    then have "ptable_lookup m (spt s) a = Some pg"
      using al by (simp add: ptable_lookup_def pg_round_down_id)
    from stack_walk_body_present [OF this, of e b] stopped(2) show
      "\<exists>s''. Stopped out s' = Returned b s'' \<and> spt s'' = spt s \<and> pagedir s'' = pagedir s"
      by simp
  qed
next
  case (next_page a b s b1 s1 r)
  show ?case
  proof (intro impI)
    assume al: "a mod PGSIZE m = 0" and all: "\<forall>p. on_walk m a p \<longrightarrow> spt s p \<noteq> None"
    from all on_walk_start [OF next_page(1)] obtain pg where "spt s a = Some pg" by auto
    then have "ptable_lookup m (spt s) a = Some pg"
      using al by (simp add: ptable_lookup_def pg_round_down_id)
    from stack_walk_body_present [OF this, of e b] next_page(2)
    have b1: "b1 = b" and s1: "s1 = s\<lparr>calls := calls s @ [Ptable_lookup a]\<rparr>" by simp_all
    have al': "(a + PGSIZE m) mod PGSIZE m = 0"
      by (rule next_page_aligned [OF next_page(1) le al])
    have "\<forall>p. on_walk m (a + PGSIZE m) p \<longrightarrow> spt s1 p \<noteq> None"
      using all on_walk_next [OF next_page(1) le nz] by (simp add: s1)
    with next_page(4) al' show
      "\<exists>s'. r = Returned b s' \<and> spt s' = spt s \<and> pagedir s' = pagedir s"
      by (auto simp: b1 s1)
  qed
qed

subsection \<open>The ways through the handler\<close>

text \<open>A not-present fault on a user address without an entry.\<close>

lemma page_fault_not_found:
  assumes "not_present m s" and "cr2 s < PHYS_BASE m"
    and "ptable_lookup m (spt s) (cr2 s) = None"
  shows "page_fault m e s =
     (if esp (recovered_frame m s) - 32 \<le> cr2 s \<and> PHYS_BASE m - STACK_LIMIT \<le> cr2 s
      then report_failure m
             (stack_walk m e (pg_round_down m (cr2 s)) False (after_lookup m s))
      else Some (System_Exit (- 1), after_lookup m s))"
proof -
  have "\<not> PHYS_BASE m \<le> cr2 s" using assms(2) by simp
  with assms show ?thesis
    by (simp add: handler_defs after_lookup_def Let_def)
qed

lemma report_failure_not_exit:
  assumes "stack_walk m e a b s = Some r"
  shows "\<exists>out s'. report_failure m (Some r) = Some (out, s')
           \<and> (out = Resolved \<or> (\<exists>k. out = Kill k) \<or> out = Null_Deref)"
proof (cases r)
  case (Returned b' s')
  then show ?thesis by (simp add: report_failure_def)
next
  case (Stopped out s')
  with stack_walk_stop [OF assms] show ?thesis by (simp add: report_failure_def)
qed

lemma margin_below_esp:
  fixes sp fa :: addr
  assumes "32 \<le> sp"
  shows "sp - 32 \<le> fa \<longleftrightarrow> uint sp - 32 \<le> uint fa"
proof -
  have "uint (sp - 32) = uint sp - uint (32 :: addr)"
    using assms by (simp add: uint_sub_lem [THEN iffD1] word_le_def)
  then show ?thesis by (simp add: word_le_def)
qed

lemma four_below_esp:
  fixes sp :: addr
  assumes "32 \<le> sp"
  shows "sp - 32 \<le> sp - 4"
proof -
  have "(4 :: addr) \<le> sp" using assms by (simp add: word_le_nat_alt)
  then have "uint (sp - 4) = uint sp - uint (4 :: addr)"
    by (simp add: uint_sub_lem [THEN iffD1] word_le_def)
  then show ?thesis using assms by (simp add: margin_below_esp)
qed

text \<open>The trap frame and the counter at the end of any run of the handler.\<close>

lemma report_failure_frame:
  assumes "report_failure m (stack_walk m e a b s) = Some (out, s')"
  shows "intr s' = intr s \<and> page_fault_cnt s' = page_fault_cnt s"
proof (cases "stack_walk m e a b s")
  case None
  with assms show ?thesis by (simp add: report_failure_def)
next
  case (Some r)
  with assms stack_walk_keeps [OF Some] show ?thesis
    by (cases r) (auto simp: report_failure_def split: if_splits)
qed

lemma page_fault_frame_cnt:
  assumes "page_fault m e s = Some (out, s')"
  shows "intr s' = recovered_frame m s \<and> page_fault_cnt s' = page_fault_cnt s + 1"
proof (cases "exit_if_user_access_in_kernel m (cr2 s) (user_context m s)")
  case (Some out1)
  with assms show ?thesis
    by (auto simp: page_fault_def exit_if_user_access_in_kernel_def
          bring_esp_from_thread_struct_def split: if_splits)
next
  case None
  note no_exit = this
  let ?s = "s\<lparr>page_fault_cnt := page_fault_cnt s + 1\<rparr>"
  show ?thesis
  proof (cases "fst (write_on_nonwritable_page m (cr2 s) (not_present m s) (write_access m s) ?s)")
    case (Some out2)
    with assms no_exit show ?thesis
      by (auto simp: page_fault_def write_on_nonwritable_page_def Let_def
            bring_esp_from_thread_struct_def split: if_splits option.splits)
  next
    case None
    show ?thesis
    proof (cases "is_user_vaddr m (cr2 s) \<and> not_present m s
                  \<and> ptable_lookup m (spt s) (cr2 s) = None
                  \<and> esp (recovered_frame m s) - 32 \<le> cr2 s
                  \<and> PHYS_BASE m - STACK_LIMIT \<le> cr2 s")
      case True
      then have np: "not_present m s" and ua: "cr2 s < PHYS_BASE m"
        and nf: "ptable_lookup m (spt s) (cr2 s) = None"
        and el: "esp (recovered_frame m s) - 32 \<le> cr2 s" "PHYS_BASE m - STACK_LIMIT \<le> cr2 s"
        by (auto simp: is_user_vaddr_def)
      have "page_fault m e s = report_failure m
             (stack_walk m e (pg_round_down m (cr2 s)) False (after_lookup m s))"
        using page_fault_not_found [OF np ua nf, of e] el by simp
      with assms report_failure_frame [where m = m and e = e and b = False
          and s = "after_lookup m s" and out = out and s' = s']
      show ?thesis by (simp add: after_lookup_def)
    next
      case False
      with assms no_exit None show ?thesis
        by (auto simp: page_fault_def resolve_fault_def report_failure_def
              write_on_nonwritable_page_def Let_def
              split: if_splits option.splits prod.splits)
    qed
  qed
qed

text \<open>The handler ends wherever the loop does.\<close>

lemma page_fault_returns:
  assumes "PGSIZE m \<noteq> 0" and "PGSIZE m \<le> PHYS_BASE m"
  shows "page_fault m e s \<noteq> None"
proof -
  have "stack_walk m e a b t \<noteq> None" for a b t
    using stack_walk_terminates [OF assms, of e a b t] by auto
  then have "resolve_fault m e fa np t \<noteq> None" for fa np t
    by (simp add: resolve_fault_def Let_def split: option.split)
  then have "report_failure m (resolve_fault m e fa np t) \<noteq> None" for fa np t
    by (auto simp: report_failure_def split: option.split resolution.split)
  then show ?thesis
    by (simp add: page_fault_def Let_def split: option.split prod.split)
qed

text \<open>The counter is incremented and otherwise neither read nor written.\<close>

lemma sint_succ_64:
  fixes x :: "64 word"
  assumes "sint x \<noteq> 2 ^ 63 - 1"
  shows "sint (x + 1) = sint x + 1"
proof -
  have "sint x < 2 ^ 63" "- (2 ^ 63) \<le> sint x"
    using sint_lt [of x] sint_ge [of x] by simp_all
  with assms have "- (2 ^ 63) \<le> sint x + 1" "sint x + 1 < 2 ^ 63" by simp_all
  then have "signed_take_bit 63 (sint x + 1) = sint x + 1"
    by (simp add: signed_take_bit_int_eq_self)
  then show ?thesis by (simp add: sint_word_ariths)
qed

lemma resolve_fault_cnt:
  "resolve_fault m e fa np (s\<lparr>page_fault_cnt := c\<rparr>)
     = map_option (map_state (\<lambda>t. t\<lparr>page_fault_cnt := c\<rparr>)) (resolve_fault m e fa np s)"
proof (cases s)
  case (fields pc fa' te f t pd ap cl)
  show ?thesis
    unfolding fields
    using stack_walk_cnt [where m = m and e = e and a = "pg_round_down m fa" and b = False
        and c = c and s = "\<lparr>page_fault_cnt = pc, cr2 = fa', thread_esp = te, intr = f, spt = t,
             pagedir = pd, alloc_page = ap, calls = cl @ [Ptable_lookup fa]\<rparr>"]
    by (auto simp: resolve_fault_def Let_def split: option.split)
qed

lemma report_failure_cnt:
  "report_failure m (map_option (map_state (\<lambda>t. t\<lparr>page_fault_cnt := c\<rparr>)) r)
     = map_option (\<lambda>(out, s'). (out, s'\<lparr>page_fault_cnt := c\<rparr>)) (report_failure m r)"
  by (simp add: report_failure_def split: option.split resolution.split)

lemma page_fault_cnt_update:
  "page_fault m e (s\<lparr>page_fault_cnt := c\<rparr>)
     = map_option (\<lambda>(out, s'). (out, s'\<lparr>page_fault_cnt := c + 1\<rparr>)) (page_fault m e s)"
proof (cases s)
  case (fields pc fa te f t pd ap cl)
  have a: "resolve_fault m e fa np
             \<lparr>page_fault_cnt = c + 1, cr2 = fa, thread_esp = te, intr = f', spt = t,
               pagedir = pd, alloc_page = ap, calls = cl'\<rparr>
     = map_option (map_state (\<lambda>t. t\<lparr>page_fault_cnt := c + 1\<rparr>))
         (resolve_fault m e fa np
             \<lparr>page_fault_cnt = pc + 1, cr2 = fa, thread_esp = te, intr = f', spt = t,
               pagedir = pd, alloc_page = ap, calls = cl'\<rparr>)" for np f' cl'
    using resolve_fault_cnt [where m = m and e = e and fa = fa and np = np and c = "c + 1"
        and s = "\<lparr>page_fault_cnt = pc + 1, cr2 = fa, thread_esp = te, intr = f', spt = t,
               pagedir = pd, alloc_page = ap, calls = cl'\<rparr>"]
    by simp
  show ?thesis
    unfolding fields
    by (auto simp: page_fault_def Let_def write_on_nonwritable_page_def report_failure_cnt a
        split: option.split)
qed

subsection \<open>User access to kernel addresses\<close>

text \<open>
  C1. A fault in user context (bit \<^verbatim>\<open>PF_U\<close> of the error code set) whose address is at or
  above \<^verbatim>\<open>PHYS_BASE\<close> ends in \<^verbatim>\<open>system_exit (-1)\<close>. It is not resolved, and apart from the
  fault counter the state is the one at entry: no lookup was made, no page-table entry
  created or changed.
\<close>

theorem user_fault_in_kernel_space_exits:
  assumes "user_context m s" and "PHYS_BASE m \<le> cr2 s"
  shows "page_fault m e s
           = Some (System_Exit (- 1), s\<lparr>page_fault_cnt := page_fault_cnt s + 1\<rparr>)"
  using assms
  by (simp add: page_fault_def exit_if_user_access_in_kernel_def is_kernel_vaddr_def)

text \<open>The scenario of the specification: a user fault at \<^verbatim>\<open>PHYS_BASE + 0x10\<close>.\<close>

theorem user_fault_in_kernel_space_exits_witness:
  "user_context pintos (fault_state 0xC0000010 4 0xBFFFFF00 Map.empty)
   \<and> PHYS_BASE pintos \<le> cr2 (fault_state 0xC0000010 4 0xBFFFFF00 Map.empty)
   \<and> page_fault pintos env_ok (fault_state 0xC0000010 4 0xBFFFFF00 Map.empty)
       = Some (System_Exit (- 1),
               (fault_state 0xC0000010 4 0xBFFFFF00 Map.empty)\<lparr>page_fault_cnt := 1\<rparr>)"
  using user_fault_in_kernel_space_exits
    [where m = pintos and s = "fault_state 0xC0000010 4 0xBFFFFF00 Map.empty" and e = env_ok]
  by (simp add: pintos_def fault_state_def)

subsection \<open>Writing to a read-only page\<close>

text \<open>
  C6. A write fault (bit \<^verbatim>\<open>PF_W\<close> set) on a present page (bit \<^verbatim>\<open>PF_P\<close> set) at a user
  address whose entry in the supplemental page table has \<^verbatim>\<open>writable = false\<close> ends in
  \<^verbatim>\<open>system_exit (-1)\<close>, in user and in kernel context; the lookup is all that has happened.
\<close>

theorem write_to_read_only_page_exits:
  assumes "cr2 s < PHYS_BASE m" and "\<not> not_present m s" and "write_access m s"
    and "ptable_lookup m (spt s) (cr2 s) = Some pg" and "\<not> writable pg"
  shows "page_fault m e s
           = Some (System_Exit (- 1),
                   s\<lparr>page_fault_cnt := page_fault_cnt s + 1,
                     calls := calls s @ [Ptable_lookup (cr2 s)]\<rparr>)"
proof -
  have "\<not> PHYS_BASE m \<le> cr2 s" using assms(1) by simp
  with assms show ?thesis by (simp add: handler_defs Let_def)
qed

text \<open>A user write to a read-only page at \<^verbatim>\<open>0x08048000\<close>.\<close>

theorem write_to_read_only_page_exits_witness:
  "cr2 (fault_state 0x08048123 7 0xBFFFFF00 [0x08048000 \<mapsto> (stack_entry 0x08048000)\<lparr>writable := False\<rparr>]) < PHYS_BASE pintos
   \<and> \<not> not_present pintos (fault_state 0x08048123 7 0xBFFFFF00 [0x08048000 \<mapsto> (stack_entry 0x08048000)\<lparr>writable := False\<rparr>])
   \<and> write_access pintos (fault_state 0x08048123 7 0xBFFFFF00 [0x08048000 \<mapsto> (stack_entry 0x08048000)\<lparr>writable := False\<rparr>])
   \<and> ptable_lookup pintos [0x08048000 \<mapsto> (stack_entry 0x08048000)\<lparr>writable := False\<rparr>] 0x08048123
        = Some ((stack_entry 0x08048000)\<lparr>writable := False\<rparr>)
   \<and> map_option fst (page_fault pintos env_ok (fault_state 0x08048123 7 0xBFFFFF00 [0x08048000 \<mapsto> (stack_entry 0x08048000)\<lparr>writable := False\<rparr>]))
        = Some (System_Exit (- 1))"
  using write_to_read_only_page_exits
    [where m = pintos and e = env_ok and pg = "(stack_entry 0x08048000)\<lparr>writable := False\<rparr>"
       and s = "fault_state 0x08048123 7 0xBFFFFF00 [0x08048000 \<mapsto> (stack_entry 0x08048000)\<lparr>writable := False\<rparr>]"]
  by (simp add: handler_defs example_defs)

subsection \<open>The lookup of the write check\<close>

text \<open>
  C10. For a write fault on a present page at a user address,
  \<^verbatim>\<open>write_on_nonwritable_page\<close> reads \<^verbatim>\<open>page->writable\<close> without testing the result of
  \<^verbatim>\<open>ptable_lookup\<close>: it dereferences a null pointer if and only if the page has no entry in
  the supplemental page table, and so does the handler. With an entry the dereference is
  safe.
\<close>

theorem write_check_dereferences_lookup:
  assumes "cr2 s < PHYS_BASE m" and "\<not> not_present m s" and "write_access m s"
  shows "(fst (write_on_nonwritable_page m (cr2 s) (not_present m s) (write_access m s) s)
            = Some Null_Deref
          \<longleftrightarrow> ptable_lookup m (spt s) (cr2 s) = None)
       \<and> (map_option fst (page_fault m e s) = Some Null_Deref
          \<longleftrightarrow> ptable_lookup m (spt s) (cr2 s) = None)"
proof -
  have "\<not> PHYS_BASE m \<le> cr2 s" using assms(1) by simp
  with assms show ?thesis
    by (auto simp: handler_defs Let_def split: option.splits)
qed

text \<open>A user write to a present page that has no entry.\<close>

theorem write_check_dereferences_lookup_witness:
  "cr2 (fault_state 0x08048123 7 0xBFFFFF00 Map.empty) < PHYS_BASE pintos
   \<and> \<not> not_present pintos (fault_state 0x08048123 7 0xBFFFFF00 Map.empty)
   \<and> write_access pintos (fault_state 0x08048123 7 0xBFFFFF00 Map.empty)
   \<and> ptable_lookup pintos Map.empty 0x08048123 = None
   \<and> map_option fst (page_fault pintos env_ok (fault_state 0x08048123 7 0xBFFFFF00 Map.empty))
        = Some Null_Deref"
  using write_check_dereferences_lookup
    [where m = pintos and e = env_ok and s = "fault_state 0x08048123 7 0xBFFFFF00 Map.empty"]
  by (simp add: handler_defs example_defs)

subsection \<open>The stack pointer of a kernel fault\<close>

text \<open>
  C8. \<^verbatim>\<open>bring_esp_from_thread_struct\<close> replaces the stack pointer of the trap frame by the
  one saved in the current thread exactly if the fault is in kernel context, the page is
  not present and the stack pointer of the trap frame is at most
  \<^verbatim>\<open>PHYS_BASE - STACK_LIMIT\<close>; otherwise it leaves it, and in every case the other fields,
  as they are. Whenever the handler ends, the trap frame is the result of this step.
\<close>

theorem kernel_stack_pointer_recovery:
  "esp (bring_esp_from_thread_struct m user np cur_esp f)
     = (if \<not> user \<and> np \<and> esp f \<le> PHYS_BASE m - STACK_LIMIT then cur_esp else esp f)
   \<and> error_code (bring_esp_from_thread_struct m user np cur_esp f) = error_code f
   \<and> cs (bring_esp_from_thread_struct m user np cur_esp f) = cs f
   \<and> (page_fault m e s = Some (out, s') \<longrightarrow>
        intr s' = (if \<not> user_context m s \<and> not_present m s
                      \<and> esp (intr s) \<le> PHYS_BASE m - STACK_LIMIT
                   then (intr s)\<lparr>esp := thread_esp s\<rparr> else intr s))"
  using page_fault_frame_cnt [where m = m and e = e and s = s and out = out and s' = s']
  by (simp add: bring_esp_from_thread_struct_def)

text \<open>
  A kernel read of the top stack page with a stack pointer of \<^verbatim>\<open>0x1234\<close> in the trap frame
  and \<^verbatim>\<open>0xbffffe00\<close> saved in the thread.
\<close>

theorem kernel_stack_pointer_recovery_witness:
  "page_fault pintos env_ok
     ((fault_state 0xBFFFFDF0 0 0xBFFFFE00 Map.empty)
        \<lparr>intr := \<lparr>error_code = 0, cs = 0x08, esp = 0x1234\<rparr>\<rparr>)
     = Some (Kill Kernel_Panic,
         after_lookup pintos ((fault_state 0xBFFFFDF0 0 0xBFFFFE00 Map.empty)
           \<lparr>intr := \<lparr>error_code = 0, cs = 0x08, esp = 0x1234\<rparr>\<rparr>))
   \<and> intr (after_lookup pintos ((fault_state 0xBFFFFDF0 0 0xBFFFFE00 Map.empty)
           \<lparr>intr := \<lparr>error_code = 0, cs = 0x08, esp = 0x1234\<rparr>\<rparr>))
       = \<lparr>error_code = 0, cs = 0x08, esp = 0xBFFFFE00\<rparr>"
  using kernel_stack_pointer_recovery
    [where m = pintos and e = env_ok and out = "Kill Kernel_Panic"
       and s = "(fault_state 0xBFFFFDF0 0 0xBFFFFE00 Map.empty)
                  \<lparr>intr := \<lparr>error_code = 0, cs = 0x08, esp = 0x1234\<rparr>\<rparr>"
       and s' = "after_lookup pintos ((fault_state 0xBFFFFDF0 0 0xBFFFFE00 Map.empty)
           \<lparr>intr := \<lparr>error_code = 0, cs = 0x08, esp = 0x1234\<rparr>\<rparr>)"]
  by (simp add: handler_defs example_defs stack_walk.simps Let_def)

subsection \<open>A fault on a page that has an entry\<close>



subsection \<open>Eligibility for stack growth\<close>

text \<open>
  C2. A not-present fault on a user address whose page has no entry in the supplemental
  page table takes the stack-growth loop if and only if the fault address is at least
  \<^verbatim>\<open>esp - 32\<close> and at least \<^verbatim>\<open>PHYS_BASE - 8 MiB\<close>: then the outcome is the one of the loop,
  started at the page of the fault address with \<^verbatim>\<open>success = false\<close>, and never
  \<^verbatim>\<open>system_exit\<close>. If either test fails the handler ends in \<^verbatim>\<open>system_exit (-1)\<close> with the
  page tables untouched. Both comparisons and the subtraction are those of 32-bit
  pointers; where the stack pointer is at least 32 the subtraction does not wrap, and the
  first test says that the fault address lies no more than 32 bytes below the stack
  pointer. \<^verbatim>\<open>esp\<close> is the stack pointer of the trap frame as the resolution block reads it,
  which in user context is the one the processor saved.
\<close>

theorem stack_growth_eligibility:
  assumes "not_present m s" and "cr2 s < PHYS_BASE m"
    and "ptable_lookup m (spt s) (cr2 s) = None"
  shows "(if esp (recovered_frame m s) - 32 \<le> cr2 s \<and> PHYS_BASE m - 8 * 1024 * 1024 \<le> cr2 s
          then page_fault m e s
                 = report_failure m
                     (stack_walk m e (pg_round_down m (cr2 s)) False (after_lookup m s))
               \<and> (\<forall>status s'. page_fault m e s \<noteq> Some (System_Exit status, s'))
          else page_fault m e s = Some (System_Exit (- 1), after_lookup m s)
               \<and> spt (after_lookup m s) = spt s \<and> pagedir (after_lookup m s) = pagedir s)
         \<and> (32 \<le> esp (recovered_frame m s) \<longrightarrow>
               (esp (recovered_frame m s) - 32 \<le> cr2 s
                \<longleftrightarrow> uint (esp (recovered_frame m s)) - 32 \<le> uint (cr2 s)))
         \<and> (user_context m s \<longrightarrow> recovered_frame m s = intr s)"
proof -
  let ?w = "stack_walk m e (pg_round_down m (cr2 s)) False (after_lookup m s)"
  have "report_failure m ?w \<noteq> Some (System_Exit status, s')" for status s'
  proof (cases ?w)
    case None
    then show ?thesis by (simp add: report_failure_def)
  next
    case (Some r)
    from report_failure_not_exit [OF this] Some show ?thesis by auto
  qed
  moreover have "32 \<le> esp (recovered_frame m s) \<longrightarrow>
               (esp (recovered_frame m s) - 32 \<le> cr2 s
                \<longleftrightarrow> uint (esp (recovered_frame m s)) - 32 \<le> uint (cr2 s))"
    by (simp add: margin_below_esp)
  moreover have "spt (after_lookup m s) = spt s" "pagedir (after_lookup m s) = pagedir s"
    by (simp_all add: after_lookup_def)
  moreover have "user_context m s \<longrightarrow> recovered_frame m s = intr s"
    by (simp add: bring_esp_from_thread_struct_def)
  moreover have "PHYS_BASE m - 8 * 1024 * 1024 = PHYS_BASE m - STACK_LIMIT"
    by (simp add: STACK_LIMIT_def)
  ultimately show ?thesis
    using page_fault_not_found [OF assms, of e] by simp
qed

text \<open>
  Two faults without an entry: one 16 bytes below a stack pointer in the second page from
  the top, which takes the loop and is resolved, and the scenario of the specification,
  10 MiB below the top of user space, which is beyond the 8 MiB and exits.
\<close>

theorem stack_growth_eligibility_witness:
  "(page_fault pintos env_ok (fault_state 0xBFFFEFF0 6 0xBFFFF000 Map.empty)
      = report_failure pintos
          (stack_walk pintos env_ok 0xBFFFE000 False
             (after_lookup pintos (fault_state 0xBFFFEFF0 6 0xBFFFF000 Map.empty)))
    \<and> map_option fst (page_fault pintos env_ok (fault_state 0xBFFFEFF0 6 0xBFFFF000 Map.empty))
        = Some Resolved)
   \<and> page_fault pintos env_ok (fault_state 0xBF600000 6 0xBF600000 Map.empty)
       = Some (System_Exit (- 1),
               after_lookup pintos (fault_state 0xBF600000 6 0xBF600000 Map.empty))"
  using stack_growth_eligibility
      [where m = pintos and s = "fault_state 0xBFFFEFF0 6 0xBFFFF000 Map.empty" and e = env_ok]
    stack_growth_eligibility
      [where m = pintos and s = "fault_state 0xBF600000 6 0xBF600000 Map.empty" and e = env_ok]
  by (simp add: handler_defs example_defs stack_walk.simps Let_def)

subsection \<open>A fault just below the top of the stack\<close>

text \<open>
  C4. The top of the stack is where the saved stack pointer is. A not-present fault 4
  bytes below the saved stack pointer, on a user address within the stack limit whose
  page has no entry in the supplemental page table, is resolved: the page gets the one
  new entry, loaded and writable, and is mapped writable to the frame obtained, and
  nothing else changes in either page table. The stack has grown down to the stack
  pointer: the page of the fault lies below the top page \<^verbatim>\<open>PHYS_BASE - PGSIZE\<close>, where the
  loop stops, and every page the loop visits above the page of the fault has an entry;
  \<^verbatim>\<open>frame_alloc\<close>, \<^verbatim>\<open>install_page\<close>, \<^verbatim>\<open>malloc\<close> and \<^verbatim>\<open>ptable_insert\<close> succeed for the page.
\<close>

theorem fault_below_stack_pointer_grows_one_page:
  assumes nz: "PGSIZE m \<noteq> 0" and le: "PGSIZE m \<le> PHYS_BASE m"
    and np: "not_present m s"
    and at: "cr2 s = esp (recovered_frame m s) - 4"
    and sp: "32 \<le> esp (recovered_frame m s)"
    and ua: "cr2 s < PHYS_BASE m"
    and lim: "PHYS_BASE m - STACK_LIMIT \<le> cr2 s"
    and nf: "ptable_lookup m (spt s) (cr2 s) = None"
    and below: "pg_round_down m (cr2 s) < PHYS_BASE m - PGSIZE m"
    and above: "\<forall>p. on_walk m (pg_round_down m (cr2 s)) p \<and> p \<noteq> pg_round_down m (cr2 s)
                  \<longrightarrow> spt s p \<noteq> None"
    and fr: "frame_alloc e (pg_round_down m (cr2 s)) = Some k"
    and ins: "install_page e (pg_round_down m (cr2 s)) k"
    and ma: "malloc e (pg_round_down m (cr2 s)) = Some blk"
    and pi: "ptable_insert e (blk\<lparr>upage := pg_round_down m (cr2 s), writable := True,
                                   loaded := True, file' := None\<rparr>)"
  shows "spt s (pg_round_down m (cr2 s)) = None
       \<and> (\<exists>s'. page_fault m e s = Some (Resolved, s')
            \<and> spt s' = (spt s)(pg_round_down m (cr2 s) \<mapsto>
                          blk\<lparr>upage := pg_round_down m (cr2 s), writable := True,
                              loaded := True, file' := None\<rparr>)
            \<and> pagedir s' = (pagedir s)(pg_round_down m (cr2 s) \<mapsto> (k, True)))"
proof -
  let ?a = "pg_round_down m (cr2 s)"
  let ?pg = "blk\<lparr>upage := ?a, writable := True, loaded := True, file' := None\<rparr>"
  let ?s = "after_lookup m s"
  let ?s5 = "?s\<lparr>calls := calls ?s @
                 [Ptable_lookup ?a, Frame_alloc (PAL_USER m OR PAL_ZERO m),
                  Install_page ?a k True, Malloc, Frame_get_from_addr k, Ptable_insert ?pg],
               pagedir := (pagedir s)(?a \<mapsto> (k, True)),
               alloc_page := (alloc_page s)(k \<mapsto> ?pg),
               spt := (spt s)(?a \<mapsto> ?pg)\<rparr>"
  have none: "spt s ?a = None" using nf by (simp add: ptable_lookup_def)
  have al: "?a mod PGSIZE m = 0" by (rule pg_round_down_aligned)
  have el: "esp (recovered_frame m s) - 32 \<le> cr2 s"
    unfolding at by (rule four_below_esp [OF sp])
  have pf: "page_fault m e s = report_failure m (stack_walk m e ?a False ?s)"
    using el lim by (simp add: page_fault_not_found [OF np ua nf])
  have "ptable_lookup m (spt ?s) ?a = None"
    using none al by (simp add: ptable_lookup_def pg_round_down_id after_lookup_def)
  then have body: "stack_walk_body m e ?a False ?s = Returned True ?s5"
    using fr ins ma pi by (simp add: stack_walk_body_def after_lookup_def Let_def)
  have unfold: "stack_walk m e ?a False ?s = stack_walk m e (?a + PGSIZE m) True ?s5"
    using below by (subst stack_walk.simps) (simp only: body if_True resolution.case)
  obtain r where run: "stack_walk m e (?a + PGSIZE m) True ?s5 = Some r"
    using stack_walk_terminates [OF nz le] by blast
  have al': "(?a + PGSIZE m) mod PGSIZE m = 0"
    by (rule next_page_aligned [OF below le al])
  have "\<forall>p. on_walk m (?a + PGSIZE m) p \<longrightarrow> spt ?s5 p \<noteq> None"
    using above on_walk_next [OF below le nz] on_walk_not_before [OF below le nz]
    by auto
  with stack_walk_all_present [OF run nz le] al'
  obtain s' where r: "r = Returned True s'" and t: "spt s' = spt ?s5"
    and d: "pagedir s' = pagedir ?s5"
    by blast
  have "page_fault m e s = Some (Resolved, s')"
    using pf unfold run r by (simp add: report_failure_def)
  with t d none show ?thesis by simp
qed

text \<open>
  A user write at \<^verbatim>\<open>0xbfffcffc\<close> with the stack pointer at \<^verbatim>\<open>0xbfffd000\<close> and the three pages
  above mapped.
\<close>

theorem fault_below_stack_pointer_grows_one_page_witness:
  "not_present pintos (fault_state 0xBFFFCFFC 6 0xBFFFD000 grown_stack)
   \<and> cr2 (fault_state 0xBFFFCFFC 6 0xBFFFD000 grown_stack)
       = esp (recovered_frame pintos (fault_state 0xBFFFCFFC 6 0xBFFFD000 grown_stack)) - 4
   \<and> ptable_lookup pintos grown_stack 0xBFFFCFFC = None
   \<and> pg_round_down pintos 0xBFFFCFFC = 0xBFFFC000
   \<and> dom grown_stack = {0xBFFFD000, 0xBFFFE000, 0xBFFFF000}
   \<and> (\<exists>s'. page_fault pintos env_ok (fault_state 0xBFFFCFFC 6 0xBFFFD000 grown_stack)
               = Some (Resolved, s')
          \<and> spt s' = grown_stack(0xBFFFC000 \<mapsto> stack_entry 0xBFFFC000)
          \<and> pagedir s' = [0xBFFFC000 \<mapsto> (0xC0FFC000, True)])"
proof -
  let ?s = "fault_state 0xBFFFCFFC 6 0xBFFFD000 grown_stack"
  let ?blk = "\<lparr>upage = 0, writable = False, loaded = False, file' = None, swaped = False\<rparr>"
  have nz: "PGSIZE pintos \<noteq> 0" and le: "PGSIZE pintos \<le> PHYS_BASE pintos"
    by (simp_all add: pintos_def)
  have a: "pg_round_down pintos (cr2 ?s) = 0xBFFFC000"
    by (simp add: example_defs)
  have np: "not_present pintos ?s"
    and at: "cr2 ?s = esp (recovered_frame pintos ?s) - 4"
    and sp: "32 \<le> esp (recovered_frame pintos ?s)"
    and ua: "cr2 ?s < PHYS_BASE pintos"
    and lim: "PHYS_BASE pintos - STACK_LIMIT \<le> cr2 ?s"
    and nf: "ptable_lookup pintos (spt ?s) (cr2 ?s) = None"
    and below: "pg_round_down pintos (cr2 ?s) < PHYS_BASE pintos - PGSIZE pintos"
    and fr: "frame_alloc env_ok (pg_round_down pintos (cr2 ?s)) = Some 0xC0FFC000"
    and ins: "install_page env_ok (pg_round_down pintos (cr2 ?s)) 0xC0FFC000"
    and ma: "malloc env_ok (pg_round_down pintos (cr2 ?s)) = Some ?blk"
    and pi: "ptable_insert env_ok (?blk\<lparr>upage := pg_round_down pintos (cr2 ?s),
               writable := True, loaded := True, file' := None\<rparr>)"
    by (simp_all add: handler_defs example_defs grown_stack_def)
  have w1: "on_walk pintos 0xBFFFC000 p \<longleftrightarrow> p = 0xBFFFC000 \<or> on_walk pintos 0xBFFFD000 p" for p
    using on_walk_next [of "0xBFFFC000" pintos p] by (simp add: pintos_def)
  have w2: "on_walk pintos 0xBFFFD000 p \<longleftrightarrow> p = 0xBFFFD000 \<or> on_walk pintos 0xBFFFE000 p" for p
    using on_walk_next [of "0xBFFFD000" pintos p] by (simp add: pintos_def)
  have w3: "on_walk pintos 0xBFFFE000 p \<longleftrightarrow> p = 0xBFFFE000 \<or> on_walk pintos 0xBFFFF000 p" for p
    using on_walk_next [of "0xBFFFE000" pintos p] by (simp add: pintos_def)
  have w4: "\<not> on_walk pintos 0xBFFFF000 p" for p
    using on_walk_finished [of "0xBFFFF000" pintos p] by (simp add: pintos_def)
  have above': "\<forall>p. on_walk pintos 0xBFFFC000 p \<and> p \<noteq> 0xBFFFC000 \<longrightarrow> grown_stack p \<noteq> None"
    by (auto simp: w1 w2 w3 w4 grown_stack_def)
  then have above: "\<forall>p. on_walk pintos (pg_round_down pintos (cr2 ?s)) p
                      \<and> p \<noteq> pg_round_down pintos (cr2 ?s) \<longrightarrow> spt ?s p \<noteq> None"
    unfolding a by (simp add: fault_state_def)
  from fault_below_stack_pointer_grows_one_page
    [OF nz le np at sp ua lim nf below above fr ins ma pi]
  have "\<exists>s'. page_fault pintos env_ok ?s = Some (Resolved, s')
          \<and> spt s' = grown_stack(0xBFFFC000 \<mapsto> stack_entry 0xBFFFC000)
          \<and> pagedir s' = [0xBFFFC000 \<mapsto> (0xC0FFC000, True)]"
    unfolding a by (simp add: fault_state_def stack_entry_def)
  moreover have "dom grown_stack = {0xBFFFD000, 0xBFFFE000, 0xBFFFF000}"
    by (auto simp: grown_stack_def)
  ultimately show ?thesis
    using np at nf a by (simp add: fault_state_def)
qed

subsection \<open>The walk of the stack-growth loop\<close>

text \<open>
  C5, as stated, fails: the loop does not walk downward and does not stop at a mapped
  page. A user write in the page at \<^verbatim>\<open>0xbfffc000\<close>, with only the page at \<^verbatim>\<open>0xbfffd000\<close>
  in the supplemental page table: afterwards the page below the fault page, at
  \<^verbatim>\<open>0xbfffb000\<close>, still has no entry, while the page at \<^verbatim>\<open>0xbfffe000\<close>, above the mapped
  page, has got one.
\<close>

theorem growth_walks_to_higher_addresses:
  "map_option
     (\<lambda>(out, s'). (out, map (spt s') [0xBFFFB000, 0xBFFFC000, 0xBFFFD000, 0xBFFFE000, 0xBFFFF000]))
     (page_fault pintos env_ok
        (fault_state 0xBFFFC010 6 0xBFFFC010 [0xBFFFD000 \<mapsto> stack_entry 0xBFFFD000]))
   = Some (Resolved,
           [None, Some (stack_entry 0xBFFFC000), Some (stack_entry 0xBFFFD000),
            Some (stack_entry 0xBFFFE000), None])"
  by (simp add: handler_defs example_defs stack_walk.simps Let_def)

text \<open>
  C5 (amended). One pass of the loop body, for a page that has an entry already, does
  nothing but the lookup and leaves the flag \<^verbatim>\<open>success\<close> as it is; for a page without an
  entry, where \<^verbatim>\<open>frame_alloc\<close>, \<^verbatim>\<open>install_page\<close>, \<^verbatim>\<open>malloc\<close> and \<^verbatim>\<open>ptable_insert\<close> succeed, it
  asks \<^verbatim>\<open>frame_alloc\<close> for a zeroed user frame, maps the page writable to it, and inserts an
  entry with \<^verbatim>\<open>loaded = true\<close>, \<^verbatim>\<open>writable = true\<close>, \<^verbatim>\<open>file = NULL\<close>, which the frame is linked
  to. On an eligible stack-growth fault the loop visits the page of the fault address and
  every page above it, page by page toward higher addresses, up to but not including
  \<^verbatim>\<open>PHYS_BASE - PGSIZE\<close>; it does not stop at a page that is already mapped. The run ends
  (on every machine whose page size is not zero and at most \<^verbatim>\<open>PHYS_BASE\<close>), and unless it
  ends in a null dereference (\<^verbatim>\<open>malloc\<close> returning \<^verbatim>\<open>NULL\<close>), in the state it ends in every
  visited page that had no entry and for which the four calls succeed has the new entry
  and the writable mapping; every visited page that had an entry keeps it, and its
  mapping, unchanged; every page not visited keeps its entry and mapping, among them all
  pages below the fault page and the top page.
\<close>

theorem growth_walk_effect:
  assumes nz: "PGSIZE m \<noteq> 0" and le: "PGSIZE m \<le> PHYS_BASE m"
    and np: "not_present m s" and ua: "cr2 s < PHYS_BASE m"
    and nf: "ptable_lookup m (spt s) (cr2 s) = None"
    and el: "esp (recovered_frame m s) - 32 \<le> cr2 s" "PHYS_BASE m - STACK_LIMIT \<le> cr2 s"
  shows
    "(\<forall>a b t pg. ptable_lookup m (spt t) a = Some pg \<longrightarrow>
        stack_walk_body m e a b t = Returned b (t\<lparr>calls := calls t @ [Ptable_lookup a]\<rparr>))
     \<and> (\<forall>a b t k blk.
          ptable_lookup m (spt t) a = None
          \<and> frame_alloc e a = Some k \<and> install_page e a k \<and> malloc e a = Some blk
          \<and> ptable_insert e (blk\<lparr>upage := a, writable := True, loaded := True, file' := None\<rparr>)
          \<longrightarrow> stack_walk_body m e a b t
                = Returned True
                    (t\<lparr>calls := calls t @
                         [Ptable_lookup a, Frame_alloc (PAL_USER m OR PAL_ZERO m),
                          Install_page a k True, Malloc, Frame_get_from_addr k,
                          Ptable_insert
                            (blk\<lparr>upage := a, writable := True, loaded := True, file' := None\<rparr>)],
                       pagedir := (pagedir t)(a \<mapsto> (k, True)),
                       alloc_page := (alloc_page t)
                         (k \<mapsto> blk\<lparr>upage := a, writable := True, loaded := True, file' := None\<rparr>),
                       spt := (spt t)
                         (a \<mapsto> blk\<lparr>upage := a, writable := True, loaded := True, file' := None\<rparr>)\<rparr>))
     \<and> (\<exists>out s'. page_fault m e s = Some (out, s') \<and>
          (out \<noteq> Null_Deref \<longrightarrow>
             (\<forall>p k blk.
                on_walk m (pg_round_down m (cr2 s)) p \<and> spt s p = None
                \<and> frame_alloc e p = Some k \<and> install_page e p k \<and> malloc e p = Some blk
                \<and> ptable_insert e
                    (blk\<lparr>upage := p, writable := True, loaded := True, file' := None\<rparr>)
                \<longrightarrow> spt s' p
                      = Some (blk\<lparr>upage := p, writable := True, loaded := True, file' := None\<rparr>)
                    \<and> pagedir s' p = Some (k, True))
           \<and> (\<forall>p pg. on_walk m (pg_round_down m (cr2 s)) p \<and> spt s p = Some pg
                \<longrightarrow> spt s' p = Some pg \<and> pagedir s' p = pagedir s p)
           \<and> (\<forall>p. \<not> on_walk m (pg_round_down m (cr2 s)) p
                \<longrightarrow> spt s' p = spt s p \<and> pagedir s' p = pagedir s p)))"
proof (intro conjI)
  show "\<forall>a b t pg. ptable_lookup m (spt t) a = Some pg \<longrightarrow>
        stack_walk_body m e a b t = Returned b (t\<lparr>calls := calls t @ [Ptable_lookup a]\<rparr>)"
    by (simp add: stack_walk_body_present)
next
  show "\<forall>a b t k blk.
          ptable_lookup m (spt t) a = None
          \<and> frame_alloc e a = Some k \<and> install_page e a k \<and> malloc e a = Some blk
          \<and> ptable_insert e (blk\<lparr>upage := a, writable := True, loaded := True, file' := None\<rparr>)
          \<longrightarrow> stack_walk_body m e a b t
                = Returned True
                    (t\<lparr>calls := calls t @
                         [Ptable_lookup a, Frame_alloc (PAL_USER m OR PAL_ZERO m),
                          Install_page a k True, Malloc, Frame_get_from_addr k,
                          Ptable_insert
                            (blk\<lparr>upage := a, writable := True, loaded := True, file' := None\<rparr>)],
                       pagedir := (pagedir t)(a \<mapsto> (k, True)),
                       alloc_page := (alloc_page t)
                         (k \<mapsto> blk\<lparr>upage := a, writable := True, loaded := True, file' := None\<rparr>),
                       spt := (spt t)
                         (a \<mapsto> blk\<lparr>upage := a, writable := True, loaded := True, file' := None\<rparr>)\<rparr>)"
    by (simp add: stack_walk_body_def Let_def)
next
  let ?a = "pg_round_down m (cr2 s)"
  let ?s = "after_lookup m s"
  have pf: "page_fault m e s = report_failure m (stack_walk m e ?a False ?s)"
    using el by (simp add: page_fault_not_found [OF np ua nf])
  obtain r where run: "stack_walk m e ?a False ?s = Some r"
    using stack_walk_terminates [OF nz le] by blast
  show "\<exists>out s'. page_fault m e s = Some (out, s') \<and>
          (out \<noteq> Null_Deref \<longrightarrow>
             (\<forall>p k blk.
                on_walk m ?a p \<and> spt s p = None
                \<and> frame_alloc e p = Some k \<and> install_page e p k \<and> malloc e p = Some blk
                \<and> ptable_insert e
                    (blk\<lparr>upage := p, writable := True, loaded := True, file' := None\<rparr>)
                \<longrightarrow> spt s' p
                      = Some (blk\<lparr>upage := p, writable := True, loaded := True, file' := None\<rparr>)
                    \<and> pagedir s' p = Some (k, True))
           \<and> (\<forall>p pg. on_walk m ?a p \<and> spt s p = Some pg
                \<longrightarrow> spt s' p = Some pg \<and> pagedir s' p = pagedir s p)
           \<and> (\<forall>p. \<not> on_walk m ?a p
                \<longrightarrow> spt s' p = spt s p \<and> pagedir s' p = pagedir s p))"
  proof (cases r)
    case (Stopped out s')
    with stack_walk_stop [OF run] have "out = Null_Deref" by simp
    with pf run Stopped show ?thesis by (simp add: report_failure_def)
  next
    case (Returned b' s')
    have al: "?a mod PGSIZE m = 0" by (rule pg_round_down_aligned)
    from stack_walk_effect [OF run nz le] al Returned
    have t: "spt s' = (\<lambda>p. if on_walk m ?a p \<and> spt ?s p = None
                             then new_entry e p else spt ?s p)"
      and d: "pagedir s' = (\<lambda>p. if on_walk m ?a p \<and> spt ?s p = None \<and> new_mapping e p \<noteq> None
                                 then new_mapping e p else pagedir ?s p)"
      by simp_all
    have same: "spt ?s = spt s" "pagedir ?s = pagedir s" by (simp_all add: after_lookup_def)
    have "page_fault m e s = Some (if b' then Resolved else Kill (kill m (intr s')), s')"
      using pf run Returned by (simp add: report_failure_def)
    moreover
    have "spt s' p = Some (blk\<lparr>upage := p, writable := True, loaded := True, file' := None\<rparr>)
          \<and> pagedir s' p = Some (k, True)"
      if "on_walk m ?a p \<and> spt s p = None
          \<and> frame_alloc e p = Some k \<and> install_page e p k \<and> malloc e p = Some blk
          \<and> ptable_insert e (blk\<lparr>upage := p, writable := True, loaded := True, file' := None\<rparr>)"
      for p k blk
      using that by (auto simp: t d same new_entry_def new_mapping_def)
    moreover have "spt s' p = Some pg \<and> pagedir s' p = pagedir s p"
      if "on_walk m ?a p \<and> spt s p = Some pg" for p pg
      using that by (auto simp: t d same)
    moreover have "spt s' p = spt s p \<and> pagedir s' p = pagedir s p"
      if "\<not> on_walk m ?a p" for p
      using that by (auto simp: t d same)
    ultimately show ?thesis by blast
  qed
qed

text \<open>The fault of the example above, page by page.\<close>

theorem growth_walk_effect_witness:
  "PGSIZE pintos \<noteq> 0 \<and> PGSIZE pintos \<le> PHYS_BASE pintos
   \<and> not_present pintos (fault_state 0xBFFFC010 6 0xBFFFC010 [0xBFFFD000 \<mapsto> stack_entry 0xBFFFD000])
   \<and> cr2 (fault_state 0xBFFFC010 6 0xBFFFC010 [0xBFFFD000 \<mapsto> stack_entry 0xBFFFD000])
        < PHYS_BASE pintos
   \<and> ptable_lookup pintos [0xBFFFD000 \<mapsto> stack_entry 0xBFFFD000] 0xBFFFC010 = None
   \<and> on_walk pintos 0xBFFFC000 0xBFFFC000
   \<and> on_walk pintos 0xBFFFC000 0xBFFFD000
   \<and> on_walk pintos 0xBFFFC000 0xBFFFE000
   \<and> \<not> on_walk pintos 0xBFFFC000 0xBFFFB000
   \<and> \<not> on_walk pintos 0xBFFFC000 0xBFFFF000
   \<and> (\<exists>s'. page_fault pintos env_ok
               (fault_state 0xBFFFC010 6 0xBFFFC010 [0xBFFFD000 \<mapsto> stack_entry 0xBFFFD000])
             = Some (Resolved, s')
          \<and> spt s' 0xBFFFC000 = Some (stack_entry 0xBFFFC000)
          \<and> pagedir s' 0xBFFFC000 = Some (0xC0FFC000, True)
          \<and> spt s' 0xBFFFD000 = Some (stack_entry 0xBFFFD000)
          \<and> pagedir s' 0xBFFFD000 = None
          \<and> spt s' 0xBFFFE000 = Some (stack_entry 0xBFFFE000)
          \<and> spt s' 0xBFFFB000 = None
          \<and> spt s' 0xBFFFF000 = None)"
proof -
  let ?s = "fault_state 0xBFFFC010 6 0xBFFFC010 [0xBFFFD000 \<mapsto> stack_entry 0xBFFFD000]"
  let ?blk = "\<lparr>upage = 0, writable = False, loaded = False, file' = None, swaped = False\<rparr>"
  have nz: "PGSIZE pintos \<noteq> 0" and le: "PGSIZE pintos \<le> PHYS_BASE pintos"
    by (simp_all add: pintos_def)
  have np: "not_present pintos ?s" and ua: "cr2 ?s < PHYS_BASE pintos"
    and nf: "ptable_lookup pintos (spt ?s) (cr2 ?s) = None"
    and el: "esp (recovered_frame pintos ?s) - 32 \<le> cr2 ?s"
            "PHYS_BASE pintos - STACK_LIMIT \<le> cr2 ?s"
    and a: "pg_round_down pintos (cr2 ?s) = 0xBFFFC000"
    by (simp_all add: handler_defs example_defs)
  have w: "on_walk pintos 0xBFFFC000 0xBFFFC000" "on_walk pintos 0xBFFFC000 0xBFFFD000"
    "on_walk pintos 0xBFFFC000 0xBFFFE000" "\<not> on_walk pintos 0xBFFFC000 0xBFFFB000"
    "\<not> on_walk pintos 0xBFFFC000 0xBFFFF000"
    by (simp_all add: on_walk_def pintos_def)
  have out: "map_option fst (page_fault pintos env_ok ?s) = Some Resolved"
    by (simp add: handler_defs example_defs stack_walk.simps Let_def)
  from growth_walk_effect [OF nz le np ua nf el, of env_ok, THEN conjunct2, THEN conjunct2]
  obtain out s' where run: "page_fault pintos env_ok ?s = Some (out, s')"
    and walk: "out \<noteq> Null_Deref \<longrightarrow>
         (\<forall>p k blk.
            on_walk pintos 0xBFFFC000 p \<and> spt ?s p = None
            \<and> frame_alloc env_ok p = Some k \<and> install_page env_ok p k \<and> malloc env_ok p = Some blk
            \<and> ptable_insert env_ok (blk\<lparr>upage := p, writable := True, loaded := True, file' := None\<rparr>)
            \<longrightarrow> spt s' p = Some (blk\<lparr>upage := p, writable := True, loaded := True, file' := None\<rparr>)
                \<and> pagedir s' p = Some (k, True))
       \<and> (\<forall>p pg. on_walk pintos 0xBFFFC000 p \<and> spt ?s p = Some pg
            \<longrightarrow> spt s' p = Some pg \<and> pagedir s' p = pagedir ?s p)
       \<and> (\<forall>p. \<not> on_walk pintos 0xBFFFC000 p
            \<longrightarrow> spt s' p = spt ?s p \<and> pagedir s' p = pagedir ?s p)"
    unfolding a by blast
  from run out have res: "out = Resolved" by simp
  have new: "spt s' p = Some (blk\<lparr>upage := p, writable := True, loaded := True, file' := None\<rparr>)
                \<and> pagedir s' p = Some (k, True)"
    if "on_walk pintos 0xBFFFC000 p" "spt ?s p = None" "frame_alloc env_ok p = Some k"
      "install_page env_ok p k" "malloc env_ok p = Some blk"
      "ptable_insert env_ok (blk\<lparr>upage := p, writable := True, loaded := True, file' := None\<rparr>)"
    for p k blk
    using walk res that by blast
  have old: "spt s' p = Some pg \<and> pagedir s' p = pagedir ?s p"
    if "on_walk pintos 0xBFFFC000 p" "spt ?s p = Some pg" for p pg
    using walk res that by blast
  have off: "spt s' p = spt ?s p \<and> pagedir s' p = pagedir ?s p"
    if "\<not> on_walk pintos 0xBFFFC000 p" for p
    using walk res that by blast
  have "spt s' 0xBFFFC000 = Some (stack_entry 0xBFFFC000)
          \<and> pagedir s' 0xBFFFC000 = Some (0xC0FFC000, True)"
    using new [where p = "0xBFFFC000" and k = "0xC0FFC000" and blk = ?blk] w
    by (simp add: example_defs)
  moreover have "spt s' 0xBFFFE000 = Some (stack_entry 0xBFFFE000)"
    using new [where p = "0xBFFFE000" and k = "0xC0FFE000" and blk = ?blk] w
    by (simp add: example_defs)
  moreover have "spt s' 0xBFFFD000 = Some (stack_entry 0xBFFFD000) \<and> pagedir s' 0xBFFFD000 = None"
    using old [where p = "0xBFFFD000" and pg = "stack_entry 0xBFFFD000"] w
    by (simp add: example_defs)
  moreover have "spt s' 0xBFFFB000 = None" "spt s' 0xBFFFF000 = None"
    using off [where p = "0xBFFFB000"] off [where p = "0xBFFFF000"] w
    by (simp_all add: example_defs)
  ultimately show ?thesis
    using nz le np ua nf w run res by (simp add: fault_state_def)
qed

subsection \<open>Failures during stack growth\<close>

text \<open>
  C3 (the code departs from the specification). The loop assigns \<^verbatim>\<open>success\<close> anew for every page
  it obtains a frame for, and leaves it as it is where \<^verbatim>\<open>frame_alloc\<close> returns \<^verbatim>\<open>NULL\<close>, so
  a failure is forgotten as soon as a later page succeeds. A user write 16 bytes below a
  stack pointer at \<^verbatim>\<open>0xbfffd000\<close>, with the top stack page mapped: \<^verbatim>\<open>frame_alloc\<close> fails for
  the page at \<^verbatim>\<open>0xbfffc000\<close>, \<^verbatim>\<open>ptable_insert\<close> fails for the page at \<^verbatim>\<open>0xbfffd000\<close>, the page
  at \<^verbatim>\<open>0xbfffe000\<close> succeeds, and the handler returns as if the fault were resolved. The
  faulting page has no entry and no mapping; the mapping of the page whose insertion
  failed stays installed.
\<close>

theorem failed_page_is_forgotten_by_the_walk:
  "frame_alloc env_flaky 0xBFFFC000 = None
   \<and> \<not> ptable_insert env_flaky (stack_entry 0xBFFFD000)
   \<and> map_option
        (\<lambda>(out, s'). (out, map (spt s') [0xBFFFC000, 0xBFFFD000, 0xBFFFE000],
                            map (pagedir s') [0xBFFFC000, 0xBFFFD000, 0xBFFFE000]))
        (page_fault pintos env_flaky
           (fault_state 0xBFFFCFF0 6 0xBFFFD000 [0xBFFFF000 \<mapsto> stack_entry 0xBFFFF000]))
       = Some (Resolved,
               [None, None, Some (stack_entry 0xBFFFE000)],
               [None, Some (0xC0FFD000, True), Some (0xC0FFE000, True)])"
  by (simp add: handler_defs example_defs stack_walk.simps Let_def)

subsection \<open>The fault counter\<close>

text \<open>
  C9. Every run of the handler that ends has incremented \<^verbatim>\<open>page_fault_cnt\<close> by exactly one
  (as a signed 64-bit number it has grown by one unless it was at its maximum), and on a
  machine whose page size is not zero and at most \<^verbatim>\<open>PHYS_BASE\<close> every run ends. The value of
  the counter decides nothing: two runs from states that differ in the counter only have
  the same outcome and end in states that differ in the counter only.
\<close>

theorem fault_counter_counts_and_decides_nothing:
  "(page_fault m e s = Some (out, s') \<longrightarrow>
      page_fault_cnt s' = page_fault_cnt s + 1
      \<and> (sint (page_fault_cnt s) \<noteq> 2 ^ 63 - 1 \<longrightarrow>
           sint (page_fault_cnt s') = sint (page_fault_cnt s) + 1))
   \<and> (PGSIZE m \<noteq> 0 \<and> PGSIZE m \<le> PHYS_BASE m \<longrightarrow> page_fault m e s \<noteq> None)
   \<and> map_option fst (page_fault m e (s\<lparr>page_fault_cnt := c\<rparr>))
       = map_option fst (page_fault m e s)
   \<and> map_option (\<lambda>(out, s'). s'\<lparr>page_fault_cnt := 0\<rparr>) (page_fault m e (s\<lparr>page_fault_cnt := c\<rparr>))
       = map_option (\<lambda>(out, s'). s'\<lparr>page_fault_cnt := 0\<rparr>) (page_fault m e s)"
proof -
  have "page_fault_cnt s' = page_fault_cnt s + 1
        \<and> (sint (page_fault_cnt s) \<noteq> 2 ^ 63 - 1 \<longrightarrow>
             sint (page_fault_cnt s') = sint (page_fault_cnt s) + 1)"
    if "page_fault m e s = Some (out, s')"
    using page_fault_frame_cnt [OF that] by (simp add: sint_succ_64)
  moreover have "page_fault m e s \<noteq> None" if "PGSIZE m \<noteq> 0 \<and> PGSIZE m \<le> PHYS_BASE m"
    using that page_fault_returns by blast
  moreover have "map_option fst (page_fault m e (s\<lparr>page_fault_cnt := c\<rparr>))
       = map_option fst (page_fault m e s)"
    by (simp add: page_fault_cnt_update option.map_comp comp_def split_def)
  moreover have "map_option (\<lambda>(out, s'). s'\<lparr>page_fault_cnt := 0\<rparr>)
         (page_fault m e (s\<lparr>page_fault_cnt := c\<rparr>))
       = map_option (\<lambda>(out, s'). s'\<lparr>page_fault_cnt := 0\<rparr>) (page_fault m e s)"
    by (simp add: page_fault_cnt_update option.map_comp comp_def split_def)
  ultimately show ?thesis by blast
qed

text \<open>The user fault at \<^verbatim>\<open>PHYS_BASE + 0x10\<close>, counted.\<close>

theorem fault_counter_counts_and_decides_nothing_witness:
  "page_fault pintos env_ok (fault_state 0xC0000010 4 0xBFFFFF00 Map.empty)
     = Some (System_Exit (- 1), (fault_state 0xC0000010 4 0xBFFFFF00 Map.empty)\<lparr>page_fault_cnt := 1\<rparr>)
   \<and> sint (page_fault_cnt (fault_state 0xC0000010 4 0xBFFFFF00 Map.empty)) \<noteq> 2 ^ 63 - 1
   \<and> PGSIZE pintos \<noteq> 0 \<and> PGSIZE pintos \<le> PHYS_BASE pintos
   \<and> sint (page_fault_cnt ((fault_state 0xC0000010 4 0xBFFFFF00 Map.empty)\<lparr>page_fault_cnt := 1\<rparr>))
       = sint (page_fault_cnt (fault_state 0xC0000010 4 0xBFFFFF00 Map.empty)) + 1
   \<and> page_fault pintos env_ok (fault_state 0xC0000010 4 0xBFFFFF00 Map.empty) \<noteq> None"
  using fault_counter_counts_and_decides_nothing
    [where m = pintos and e = env_ok and s = "fault_state 0xC0000010 4 0xBFFFFF00 Map.empty"
       and out = "System_Exit (- 1)"
       and s' = "(fault_state 0xC0000010 4 0xBFFFFF00 Map.empty)\<lparr>page_fault_cnt := 1\<rparr>"]
  by (simp add: handler_defs example_defs)

end
